theory Spec2Isabelle
  imports Complex_Main
begin

section \<open>JavaScript values and arrays\<close>

text \<open>
  The component of \<^verbatim>\<open>tetris.tsx\<close> keeps its game in React state hooks. A board cell
  is the number 0 or a colour string, a shape cell is the number 0 or 1, and a read past
  the end of an array gives \<^verbatim>\<open>undefined\<close>. One datatype holds the three kinds of
  value, so that the source's test \<^verbatim>\<open>v !== 0\<close> is \<open>v \<noteq> Num 0\<close> everywhere.
\<close>

datatype jsval = Num int | Str string | Undefined

datatype error = TypeError

type_synonym board = "jsval list list"

type_synonym shape = "jsval list list"

text \<open>\<^verbatim>\<open>xs[i]\<close> for an array of arrays: \<open>None\<close> is \<^verbatim>\<open>undefined\<close>.\<close>

definition arrayGet :: "'a list \<Rightarrow> int \<Rightarrow> 'a option" where
  "arrayGet xs i = (if 0 \<le> i \<and> i < int (length xs) then Some (xs ! nat i) else None)"

text \<open>\<^verbatim>\<open>row[i]\<close> for an array of cells.\<close>

definition cellGet :: "jsval list \<Rightarrow> int \<Rightarrow> jsval" where
  "cellGet row i = (case arrayGet row i of None \<Rightarrow> Undefined | Some v \<Rightarrow> v)"

text \<open>
  \<^verbatim>\<open>row[i] = v\<close>: inside the array the cell is replaced; past its end JavaScript
  extends the array, the cells in between reading as \<^verbatim>\<open>undefined\<close>. (A negative
  index would set a property and leave the elements alone; the source guards it out.)
\<close>

definition arraySet :: "jsval list \<Rightarrow> int \<Rightarrow> jsval \<Rightarrow> jsval list" where
  "arraySet row i v =
     (if i < 0 then row
      else if i < int (length row) then row[nat i := v]
      else row @ replicate (nat i - length row) Undefined @ [v])"

section \<open>Constants and the piece catalogue\<close>

definition BOARD_WIDTH :: int where
  "BOARD_WIDTH = 10"

definition BOARD_HEIGHT :: int where
  "BOARD_HEIGHT = 20"

definition INITIAL_DROP_TIME :: rat where
  "INITIAL_DROP_TIME = 800"

text \<open>
  The numbers of the component are JavaScript doubles. The score and the level are
  modelled as integers and the drop time as an exact rational: no sum or product is
  rounded. The component's sums of integers are exact below \<open>2^53\<close>, and its products
  \<^verbatim>\<open>800 * 0.95\<close> and \<^verbatim>\<open>760 * 0.95\<close> round to 760 and 722, the values of the
  model; from the third level-up on its drop time is the rounded product, which the
  model does not give. The evaluated runs below stay inside the range where the two agree.
\<close>

definition SPEED_INCREASE_FACTOR :: rat where
  "SPEED_INCREASE_FACTOR = 95 / 100"

record tetromino =
  shape :: shape
  color :: string
  name :: string

datatype key = Key_I | Key_J | Key_L | Key_O | Key_S | Key_T | Key_Z

text \<open>The table \<^verbatim>\<open>TETROMINOS\<close>, with the key spread in as \<^verbatim>\<open>name\<close>.\<close>

fun TETROMINOS :: "key \<Rightarrow> tetromino" where
  "TETROMINOS Key_I = \<lparr>shape = [[Num 1, Num 1, Num 1, Num 1]],
      color = ''bg-cyan-500'', name = ''I''\<rparr>"
| "TETROMINOS Key_J = \<lparr>shape = [[Num 1, Num 0, Num 0], [Num 1, Num 1, Num 1]],
      color = ''bg-blue-500'', name = ''J''\<rparr>"
| "TETROMINOS Key_L = \<lparr>shape = [[Num 0, Num 0, Num 1], [Num 1, Num 1, Num 1]],
      color = ''bg-orange-500'', name = ''L''\<rparr>"
| "TETROMINOS Key_O = \<lparr>shape = [[Num 1, Num 1], [Num 1, Num 1]],
      color = ''bg-yellow-500'', name = ''O''\<rparr>"
| "TETROMINOS Key_S = \<lparr>shape = [[Num 0, Num 1, Num 1], [Num 1, Num 1, Num 0]],
      color = ''bg-green-500'', name = ''S''\<rparr>"
| "TETROMINOS Key_T = \<lparr>shape = [[Num 0, Num 1, Num 0], [Num 1, Num 1, Num 1]],
      color = ''bg-purple-500'', name = ''T''\<rparr>"
| "TETROMINOS Key_Z = \<lparr>shape = [[Num 1, Num 1, Num 0], [Num 0, Num 1, Num 1]],
      color = ''bg-red-500'', name = ''Z''\<rparr>"

text \<open>
  \<^verbatim>\<open>randomTetromino\<close> draws a key with \<^verbatim>\<open>Math.random\<close>. The draw is an input
  of the model: every operation that may spawn takes the key that the draw returns.
\<close>

definition randomTetromino :: "key \<Rightarrow> tetromino" where
  "randomTetromino randKey = TETROMINOS randKey"

definition createEmptyBoard :: board where
  "createEmptyBoard = replicate (nat BOARD_HEIGHT) (replicate (nat BOARD_WIDTH) (Num 0))"

section \<open>The component's state\<close>

record piece =
  piece_x :: int
  piece_y :: int
  tetromino :: tetromino

text \<open>
  What the callback handed to \<^verbatim>\<open>setTimeout\<close> in \<^verbatim>\<open>checkCompletedRows\<close> closes
  over: the board it was called with, the indices of its full rows, and the score and
  level of the render in which the piece locked.
\<close>

record closure =
  cl_boardToCheck :: board
  cl_completedRowIndices :: "nat list"
  cl_score :: int
  cl_level :: int

text \<open>
  The state hooks, and the queue of pending timeout callbacks (all have the same delay,
  so they fire in the order in which they were scheduled).
\<close>

record state =
  board :: board
  currentPiece :: "piece option"
  score :: int
  gameOver :: bool
  dropTime :: rat
  level :: int
  completedRows :: "nat list"
  timeouts :: "closure list"

text \<open>
  A handler reads the values of the render it was created in (the argument \<open>snap\<close> of
  the functions below) and queues its updates; React applies the queue, in order, to the
  state that is pending (the argument \<open>q\<close>). An updater function
  \<^verbatim>\<open>(prev) => ...\<close> receives the pending value, a plain value replaces it.
\<close>

definition setCurrentPiece :: "(piece option \<Rightarrow> piece option) \<Rightarrow> state \<Rightarrow> state" where
  "setCurrentPiece f q = q\<lparr>currentPiece := f (currentPiece q)\<rparr>"

section \<open>Collision\<close>

text \<open>The test of one occupied shape cell at board position \<open>(newX, newY)\<close>.\<close>

definition cellCollides :: "board \<Rightarrow> int \<Rightarrow> int \<Rightarrow> bool" where
  "cellCollides b newX newY =
     (newX < 0 \<or> newX \<ge> BOARD_WIDTH \<or> newY \<ge> BOARD_HEIGHT \<or>
      (newY \<ge> 0 \<and> (case arrayGet b newY of None \<Rightarrow> False
                      | Some r \<Rightarrow> cellGet r newX \<noteq> Num 0)))"

text \<open>The inner loop over the columns of one shape row, from column \<open>col\<close> on.\<close>

fun colLoop :: "board \<Rightarrow> int \<Rightarrow> int \<Rightarrow> int \<Rightarrow> int \<Rightarrow> jsval list \<Rightarrow> bool" where
  "colLoop b x y row col [] = False"
| "colLoop b x y row col (v # vs) =
     (if v \<noteq> Num 0 \<and> cellCollides b (x + col) (y + row) then True
      else colLoop b x y row (col + 1) vs)"

text \<open>The outer loop over the shape's rows, from row \<open>row\<close> on.\<close>

fun rowLoop :: "board \<Rightarrow> int \<Rightarrow> int \<Rightarrow> int \<Rightarrow> shape \<Rightarrow> bool" where
  "rowLoop b x y row [] = False"
| "rowLoop b x y row (r # rs) =
     (if colLoop b x y row 0 r then True else rowLoop b x y (row + 1) rs)"

definition checkCollision :: "board \<Rightarrow> int \<Rightarrow> int \<Rightarrow> shape \<Rightarrow> bool" where
  "checkCollision b x y sh = rowLoop b x y 0 sh"

definition isValidMove :: "board \<Rightarrow> int \<Rightarrow> int \<Rightarrow> shape \<Rightarrow> bool" where
  "isValidMove b x y sh = (\<not> checkCollision b x y sh)"

section \<open>Moving\<close>

definition moveLeft :: "state \<Rightarrow> state" where
  "moveLeft snap =
     (case currentPiece snap of
        None \<Rightarrow> snap
      | Some cp \<Rightarrow>
          if isValidMove (board snap) (piece_x cp - 1) (piece_y cp) (shape (tetromino cp))
          then setCurrentPiece (map_option (\<lambda>prev. prev\<lparr>piece_x := piece_x prev - 1\<rparr>)) snap
          else snap)"

definition moveRight :: "state \<Rightarrow> state" where
  "moveRight snap =
     (case currentPiece snap of
        None \<Rightarrow> snap
      | Some cp \<Rightarrow>
          if isValidMove (board snap) (piece_x cp + 1) (piece_y cp) (shape (tetromino cp))
          then setCurrentPiece (map_option (\<lambda>prev. prev\<lparr>piece_x := piece_x prev + 1\<rparr>)) snap
          else snap)"

section \<open>Rotation\<close>

text \<open>
  \<^verbatim>\<open>shape[0].map((_, i) => shape.map((row) => row[i]).reverse())\<close>: one row per
  column \<open>i\<close> of the first row, holding column \<open>i\<close> of every row, bottom row first.
  On an empty shape \<^verbatim>\<open>shape[0]\<close> is \<^verbatim>\<open>undefined\<close> and the call throws.
\<close>

definition rotated :: "shape \<Rightarrow> error + shape" where
  "rotated sh =
     (case sh of
        [] \<Rightarrow> Inl TypeError
      | r0 # _ \<Rightarrow> Inr (map (\<lambda>i. rev (map (\<lambda>row. cellGet row (int i)) sh)) [0..<length r0]))"

definition rotatePiece :: "state \<Rightarrow> error + state" where
  "rotatePiece snap =
     (case currentPiece snap of
        None \<Rightarrow> Inr snap
      | Some cp \<Rightarrow>
          (case rotated (shape (tetromino cp)) of
             Inl e \<Rightarrow> Inl e
           | Inr rot \<Rightarrow>
               (let newX = piece_x cp; newY = piece_y cp;
                    commit = (\<lambda>nx ny. setCurrentPiece (map_option (\<lambda>prev.
                       prev\<lparr>piece_x := nx, piece_y := ny,
                            tetromino := (tetromino prev)\<lparr>shape := rot\<rparr>\<rparr>)) snap)
                in if \<not> isValidMove (board snap) newX newY rot then
                     if isValidMove (board snap) (newX - 1) newY rot then Inr (commit (newX - 1) newY)
                     else if isValidMove (board snap) (newX + 1) newY rot then Inr (commit (newX + 1) newY)
                     else if isValidMove (board snap) newX (newY - 1) rot then Inr (commit newX (newY - 1))
                     else Inr snap
                   else Inr (commit newX newY))))"

section \<open>Locking a piece\<close>

text \<open>
  The two nested \<^verbatim>\<open>forEach\<close> loops of \<^verbatim>\<open>placePiece\<close>, writing into the copy
  \<^verbatim>\<open>newBoard\<close>. A write into a row that the copy does not have throws.
\<close>

fun placeCols :: "piece \<Rightarrow> int \<Rightarrow> int \<Rightarrow> jsval list \<Rightarrow> board \<Rightarrow> error + board" where
  "placeCols cp y x [] newBoard = Inr newBoard"
| "placeCols cp y x (v # vs) newBoard =
     (if v \<noteq> Num 0 \<and> y + piece_y cp \<ge> 0 \<and> y + piece_y cp < BOARD_HEIGHT
         \<and> x + piece_x cp \<ge> 0 \<and> x + piece_x cp < BOARD_WIDTH
      then (case arrayGet newBoard (y + piece_y cp) of
              None \<Rightarrow> Inl TypeError
            | Some r \<Rightarrow>
                placeCols cp y (x + 1) vs
                  (newBoard[nat (y + piece_y cp) :=
                     arraySet r (x + piece_x cp) (Str (color (tetromino cp)))]))
      else placeCols cp y (x + 1) vs newBoard)"

fun placeRows :: "piece \<Rightarrow> int \<Rightarrow> shape \<Rightarrow> board \<Rightarrow> error + board" where
  "placeRows cp y [] newBoard = Inr newBoard"
| "placeRows cp y (row # rows) newBoard =
     (case placeCols cp y 0 row newBoard of
        Inl e \<Rightarrow> Inl e
      | Inr newBoard' \<Rightarrow> placeRows cp (y + 1) rows newBoard')"

text \<open>The board that \<^verbatim>\<open>placePiece\<close> hands to \<^verbatim>\<open>setBoard\<close>.\<close>

definition lockedBoard :: "board \<Rightarrow> piece \<Rightarrow> error + board" where
  "lockedBoard b cp = placeRows cp 0 (shape (tetromino cp)) b"

section \<open>Completed rows and the deferred clear\<close>

definition completedRowIndicesOf :: "board \<Rightarrow> nat list" where
  "completedRowIndicesOf boardToCheck =
     filter (\<lambda>index. list_all (\<lambda>cell. cell \<noteq> Num 0) (boardToCheck ! index))
       [0..<length boardToCheck]"

text \<open>
  \<^verbatim>\<open>checkCompletedRows\<close> marks the full rows and schedules the callback; the
  callback closes over the score and level of the render (\<open>snap\<close>).
\<close>

definition checkCompletedRows :: "state \<Rightarrow> board \<Rightarrow> state \<Rightarrow> state" where
  "checkCompletedRows snap boardToCheck q =
     (let completedRowIndices = completedRowIndicesOf boardToCheck
      in if length completedRowIndices > 0
         then q\<lparr>completedRows := completedRowIndices,
                timeouts := timeouts q @
                  [\<lparr>cl_boardToCheck = boardToCheck, cl_completedRowIndices = completedRowIndices,
                    cl_score = score snap, cl_level = level snap\<rparr>]\<rparr>
         else q)"

text \<open>\<^verbatim>\<open>boardToCheck.filter((_, index) => !completedRowIndices.includes(index))\<close>\<close>

definition filterRows :: "board \<Rightarrow> nat list \<Rightarrow> board" where
  "filterRows boardToCheck completedRowIndices =
     map snd (filter (\<lambda>(index, _). index \<notin> set completedRowIndices)
                (enumerate 0 boardToCheck))"

text \<open>The loop \<^verbatim>\<open>while (newBoard.length < BOARD_HEIGHT) newBoard.unshift(...)\<close>.\<close>

function unshiftLoop :: "board \<Rightarrow> board" where
  "unshiftLoop newBoard =
     (if int (length newBoard) < BOARD_HEIGHT
      then unshiftLoop (replicate (nat BOARD_WIDTH) (Num 0) # newBoard)
      else newBoard)"
  by pat_completeness auto
termination
  by (relation "measure (\<lambda>newBoard. nat BOARD_HEIGHT - length newBoard)") auto

declare unshiftLoop.simps [simp del]

text \<open>The body of the timeout callback, run 300 ms after the piece locked.\<close>

definition clearCallback :: "closure \<Rightarrow> state \<Rightarrow> state" where
  "clearCallback c q =
     (let newBoard = unshiftLoop (filterRows (cl_boardToCheck c) (cl_completedRowIndices c));
          newScore = cl_score c + int (length (cl_completedRowIndices c)) * 100 * cl_level c;
          q' = q\<lparr>board := newBoard, completedRows := [], score := newScore\<rparr>
      in if newScore div 500 > cl_level c - 1
         then q'\<lparr>level := level q' + 1, dropTime := dropTime q' * SPEED_INCREASE_FACTOR\<rparr>
         else q')"

text \<open>The oldest pending timeout fires.\<close>

definition timeoutFires :: "state \<Rightarrow> state" where
  "timeoutFires s =
     (case timeouts s of
        [] \<Rightarrow> s
      | c # cs \<Rightarrow> clearCallback c (s\<lparr>timeouts := cs\<rparr>))"

section \<open>Spawning, locking, dropping, resetting\<close>

text \<open>
  \<^verbatim>\<open>spawnNewPiece\<close> tests the spawn position with the \<^verbatim>\<open>checkCollision\<close> of its
  render, which reads that render's board. Every shape of the catalogue has a first row.
\<close>

definition spawnNewPiece :: "state \<Rightarrow> key \<Rightarrow> state \<Rightarrow> state" where
  "spawnNewPiece snap randKey q =
     (let newTetromino = randomTetromino randKey;
          newPiece = \<lparr>piece_x = BOARD_WIDTH div 2 - int (length (hd (shape newTetromino))) div 2,
                      piece_y = 0, tetromino = newTetromino\<rparr>
      in if checkCollision (board snap) (piece_x newPiece) (piece_y newPiece)
              (shape (tetromino newPiece))
         then q\<lparr>gameOver := True\<rparr>
         else setCurrentPiece (\<lambda>_. Some newPiece) q)"

text \<open>
  \<^verbatim>\<open>placePiece\<close> reads the piece and the board of its render, queues the new board,
  and calls \<^verbatim>\<open>checkCompletedRows\<close> and \<^verbatim>\<open>spawnNewPiece\<close> of the same render.
\<close>

definition placePiece :: "state \<Rightarrow> key \<Rightarrow> state \<Rightarrow> error + state" where
  "placePiece snap randKey q =
     (case currentPiece snap of
        None \<Rightarrow> Inr q
      | Some cp \<Rightarrow>
          (case lockedBoard (board snap) cp of
             Inl e \<Rightarrow> Inl e
           | Inr newBoard \<Rightarrow>
               Inr (spawnNewPiece snap randKey
                      (checkCompletedRows snap newBoard (q\<lparr>board := newBoard\<rparr>)))))"

definition moveDown :: "state \<Rightarrow> key \<Rightarrow> error + state" where
  "moveDown snap randKey =
     (case currentPiece snap of
        None \<Rightarrow> Inr snap
      | Some cp \<Rightarrow>
          if isValidMove (board snap) (piece_x cp) (piece_y cp + 1) (shape (tetromino cp))
          then Inr (setCurrentPiece (map_option (\<lambda>prev. prev\<lparr>piece_y := piece_y prev + 1\<rparr>)) snap)
          else placePiece snap randKey snap)"

text \<open>
  The loop of \<^verbatim>\<open>dropToBottom\<close>. It does not end when the shape has no occupied cell,
  so it is a partial function: \<open>None\<close> is the loop that never returns.
\<close>

partial_function (option) dropLoop :: "board \<Rightarrow> int \<Rightarrow> shape \<Rightarrow> int \<Rightarrow> int option" where
  [code]: "dropLoop b x sh newY =
     (if isValidMove b x (newY + 1) sh then dropLoop b x sh (newY + 1) else Some newY)"

definition dropToBottom :: "state \<Rightarrow> key \<Rightarrow> (error + state) option" where
  "dropToBottom snap randKey =
     (case currentPiece snap of
        None \<Rightarrow> Some (Inr snap)
      | Some cp \<Rightarrow>
          (case dropLoop (board snap) (piece_x cp) (shape (tetromino cp)) (piece_y cp) of
             None \<Rightarrow> None
           | Some newY \<Rightarrow>
               if newY \<noteq> piece_y cp
               then Some (placePiece snap randKey
                            (setCurrentPiece (map_option (\<lambda>prev. prev\<lparr>piece_y := newY\<rparr>)) snap))
               else Some (Inr snap)))"

text \<open>\<^verbatim>\<open>resetGame\<close> sets the hooks; it clears the fall interval and no timeout.\<close>

definition resetGame :: "state \<Rightarrow> state" where
  "resetGame q =
     q\<lparr>board := createEmptyBoard, currentPiece := None, score := 0, gameOver := False,
       dropTime := INITIAL_DROP_TIME, level := 1, completedRows := []\<rparr>"

text \<open>The effect that spawns when there is no piece and the game is not over.\<close>

definition spawnEffect :: "state \<Rightarrow> key \<Rightarrow> state" where
  "spawnEffect snap randKey =
     (if currentPiece snap = None \<and> \<not> gameOver snap then spawnNewPiece snap randKey snap
      else snap)"

definition initialState :: state where
  "initialState =
     \<lparr>board = createEmptyBoard, currentPiece = None, score = 0, gameOver = False,
      dropTime = INITIAL_DROP_TIME, level = 1, completedRows = [], timeouts = []\<rparr>"

section \<open>Events\<close>

text \<open>
  What can happen to the component: a key (or touch button, or the fall interval for
  \<open>ArrowDown\<close>), each ignored once the game is over; the oldest timeout firing; the
  reset button; the spawn effect. Each event runs against the committed state.
\<close>

datatype event =
    ArrowLeft | ArrowRight | ArrowDown key | ArrowUp | Space key
  | Timeout | ResetButton | SpawnEffect key

definition step :: "event \<Rightarrow> state \<Rightarrow> (error + state) option" where
  "step e s =
     (case e of
        ArrowLeft \<Rightarrow> Some (Inr (if gameOver s then s else moveLeft s))
      | ArrowRight \<Rightarrow> Some (Inr (if gameOver s then s else moveRight s))
      | ArrowDown k \<Rightarrow> Some (if gameOver s then Inr s else moveDown s k)
      | ArrowUp \<Rightarrow> Some (if gameOver s then Inr s else rotatePiece s)
      | Space k \<Rightarrow> (if gameOver s then Some (Inr s) else dropToBottom s k)
      | Timeout \<Rightarrow> Some (Inr (timeoutFires s))
      | ResetButton \<Rightarrow> Some (Inr (resetGame s))
      | SpawnEffect k \<Rightarrow> Some (Inr (spawnEffect s k)))"

fun run :: "event list \<Rightarrow> state \<Rightarrow> (error + state) option" where
  "run [] s = Some (Inr s)"
| "run (e # es) s =
     (case step e s of
        None \<Rightarrow> None
      | Some (Inl err) \<Rightarrow> Some (Inl err)
      | Some (Inr s') \<Rightarrow> run es s')"

section \<open>Well-formed boards and shapes\<close>

text \<open>The board of the component always has 20 rows of 10 cells.\<close>

definition wf_board :: "board \<Rightarrow> bool" where
  "wf_board b =
     (int (length b) = BOARD_HEIGHT \<and> list_all (\<lambda>r. int (length r) = BOARD_WIDTH) b)"

text \<open>A row is full when no cell of it is the number 0 (\<^verbatim>\<open>row.every((cell) => cell !== 0)\<close>).\<close>

definition rowFull :: "jsval list \<Rightarrow> bool" where
  "rowFull row = list_all (\<lambda>cell. cell \<noteq> Num 0) row"

definition emptyRow :: "jsval list" where
  "emptyRow = replicate (nat BOARD_WIDTH) (Num 0)"

text \<open>
  The board position \<open>(X, Y)\<close> is covered by the piece: an occupied cell \<open>(r, c)\<close> of its
  shape lies there.
\<close>

definition covers :: "piece \<Rightarrow> int \<Rightarrow> int \<Rightarrow> bool" where
  "covers cp X Y =
     (\<exists>r \<in> {0..<length (shape (tetromino cp))}. \<exists>c \<in> {0..<length (shape (tetromino cp) ! r)}.
        shape (tetromino cp) ! r ! c \<noteq> Num 0 \<and> X = piece_x cp + int c \<and> Y = piece_y cp + int r)"

text \<open>A shape is a rectangle with at least one row.\<close>

definition wf_shape :: "shape \<Rightarrow> bool" where
  "wf_shape sh = (sh \<noteq> [] \<and> list_all (\<lambda>row. length row = length (hd sh)) sh)"

text \<open>
  The specification's rotation, in its words: transpose, then reverse each resulting
  row. It is compared with \<open>rotated\<close>, the source's.
\<close>

definition clockwise :: "shape \<Rightarrow> shape" where
  "clockwise sh = map rev (transpose sh)"

text \<open>The specification's candidate origins, in their order.\<close>

definition candidates :: "int \<Rightarrow> int \<Rightarrow> (int \<times> int) list" where
  "candidates x y = [(x, y), (x - 1, y), (x + 1, y), (x, y - 1)]"

text \<open>The active piece collides with the board at its position.\<close>

definition pieceCollides :: "state \<Rightarrow> bool" where
  "pieceCollides s =
     (case currentPiece s of
        None \<Rightarrow> False
      | Some cp \<Rightarrow> checkCollision (board s) (piece_x cp) (piece_y cp) (shape (tetromino cp)))"

text \<open>
  A piece's shape is a rectangle with a cell in its first row and an occupied cell; a
  pending callback holds a well-formed board and the indices of its full rows; a state
  is well-formed when its board, its piece and its pending callbacks are.
\<close>

definition wf_piece_shape :: "shape \<Rightarrow> bool" where
  "wf_piece_shape sh =
     (wf_shape sh \<and> hd sh \<noteq> [] \<and> list_ex (list_ex (\<lambda>v. v \<noteq> Num 0)) sh)"

definition wf_piece :: "piece \<Rightarrow> bool" where
  "wf_piece cp = wf_piece_shape (shape (tetromino cp))"

definition wf_closure :: "closure \<Rightarrow> bool" where
  "wf_closure c =
     (wf_board (cl_boardToCheck c)
      \<and> cl_completedRowIndices c = completedRowIndicesOf (cl_boardToCheck c))"

definition wf_state :: "state \<Rightarrow> bool" where
  "wf_state s =
     (wf_board (board s)
      \<and> (case currentPiece s of None \<Rightarrow> True | Some cp \<Rightarrow> wf_piece cp)
      \<and> list_all wf_closure (timeouts s))"

section \<open>Concrete boards and states\<close>

text \<open>An O piece resting on the floor of the empty board.\<close>

definition state_O_on_floor :: state where
  "state_O_on_floor =
     initialState\<lparr>currentPiece :=
       Some \<lparr>piece_x = 4, piece_y = 18, tetromino = TETROMINOS Key_O\<rparr>\<rparr>"

text \<open>A T piece standing upright against the right wall of the empty board.\<close>

definition state_T_at_wall :: state where
  "state_T_at_wall =
     initialState\<lparr>currentPiece :=
       Some \<lparr>piece_x = 8, piece_y = 5,
             tetromino = (TETROMINOS Key_T)\<lparr>shape := [[Num 1, Num 0], [Num 1, Num 1], [Num 1, Num 0]]\<rparr>\<rparr>\<rparr>"

text \<open>A row with yellow cells (the colour of the O piece) in the listed columns.\<close>

definition yellowRow :: "nat list \<Rightarrow> jsval list" where
  "yellowRow cols = map (\<lambda>c. if c \<in> set cols then Str ''bg-yellow-500'' else Num 0) [0..<10]"

definition pieceO :: "int \<Rightarrow> int \<Rightarrow> piece" where
  "pieceO x y = \<lparr>piece_x = x, piece_y = y, tetromino = TETROMINOS Key_O\<rparr>"

text \<open>
  Event lists that play O pieces: \<open>k\<close> steps to the side, \<open>d\<close> steps down, and one more
  step down that locks the piece (the next piece drawn is again an O).
\<close>

definition placeO_left :: "nat \<Rightarrow> nat \<Rightarrow> event list" where
  "placeO_left k d = replicate k ArrowLeft @ replicate (Suc d) (ArrowDown Key_O)"

definition placeO_right :: "nat \<Rightarrow> nat \<Rightarrow> event list" where
  "placeO_right k d = replicate k ArrowRight @ replicate (Suc d) (ArrowDown Key_O)"

text \<open>Four O pieces side by side in columns 0 to 3 and 6 to 9, their top in row \<open>d\<close>.\<close>

definition walls :: "nat \<Rightarrow> event list" where
  "walls d = placeO_left 4 d @ placeO_left 2 d @ placeO_right 2 d @ placeO_right 4 d"

text \<open>
  Five O pieces that fill the two bottom rows, and the timeout that clears them: 200
  points at level 1, and the board is empty again.
\<close>

definition double_clear :: "event list" where
  "double_clear = walls 18 @ replicate 19 (ArrowDown Key_O) @ [Timeout]"

text \<open>An O piece as it spawns on the empty board.\<close>

definition state_O_spawned :: state where
  "state_O_spawned = initialState\<lparr>currentPiece := Some (pieceO 4 0)\<rparr>"

text \<open>
  An O piece as it spawns on top of a tower of nine O pieces in columns 4 and 5, which
  reaches row 2; and the events that build the tower from the initial state.
\<close>

definition state_tower :: state where
  "state_tower = initialState\<lparr>
      board := replicate 2 emptyRow @ replicate 18 (yellowRow [4, 5]),
      currentPiece := Some (pieceO 4 0)\<rparr>"

definition tower_events :: "event list" where
  "tower_events =
     SpawnEffect Key_O
     # concat (map (\<lambda>d. replicate (Suc d) (ArrowDown Key_O)) [18, 16, 14, 12, 10, 8, 6, 4, 2])"

text \<open>
  After two double clears (score 400, level 1): the two bottom rows lack only columns 4
  and 5, a second O piece lies on the first in columns 0 and 1, and an O piece rests in
  the gap; it completes both rows when it locks.
\<close>

definition state_two_rows :: state where
  "state_two_rows = initialState\<lparr>
      board := replicate 16 emptyRow
               @ [yellowRow [0, 1], yellowRow [0, 1],
                  yellowRow [0, 1, 2, 3, 6, 7, 8, 9], yellowRow [0, 1, 2, 3, 6, 7, 8, 9]],
      currentPiece := Some (pieceO 4 18), score := 400\<rparr>"

definition two_rows_events :: "event list" where
  "two_rows_events =
     SpawnEffect Key_O # double_clear @ double_clear
     @ placeO_left 4 18 @ placeO_left 4 16 @ placeO_left 2 18 @ placeO_right 2 18
     @ placeO_right 4 18 @ replicate 18 (ArrowDown Key_O)"

text \<open>
  The four bottom rows lack only columns 4 and 5, and an O piece rests at the bottom of
  the gap; it completes rows 18 and 19 when it locks, and the next O piece completes rows
  16 and 17.
\<close>

definition state_gap :: state where
  "state_gap = initialState\<lparr>
      board := replicate 16 emptyRow @ replicate 4 (yellowRow [0, 1, 2, 3, 6, 7, 8, 9]),
      currentPiece := Some (pieceO 4 18)\<rparr>"

definition gap_events :: "event list" where
  "gap_events = SpawnEffect Key_O # walls 18 @ walls 16 @ replicate 18 (ArrowDown Key_O)"

definition gap400_events :: "event list" where
  "gap400_events =
     SpawnEffect Key_O # double_clear @ double_clear
     @ walls 18 @ walls 16 @ replicate 18 (ArrowDown Key_O)"

text \<open>
  From \<open>state_gap\<close>: the O piece locks (a clear of rows 18 and 19 is scheduled); the next
  O piece steps down 16 rows and locks on it (a clear of rows 16 to 19 is scheduled, the
  next piece is an L); the first timeout fires.
\<close>

definition two_clears_events :: "event list" where
  "two_clears_events =
     ArrowDown Key_O # replicate 16 (ArrowDown Key_O) @ [ArrowDown Key_L, Timeout]"

text \<open>
  Then the L piece is rotated, steps down 17 rows and locks: it completes row 19 only (a
  third clear is scheduled); and the second timeout fires.
\<close>

definition three_clears_events :: "event list" where
  "three_clears_events =
     two_clears_events @ [ArrowUp] @ replicate 17 (ArrowDown Key_O)
     @ [ArrowDown Key_O, Timeout]"

text \<open>
  The specification's \<^verbatim>\<open>removeRows\<close>, in its words, applied to the full rows of a
  board: the full rows are deleted and as many empty rows are put on top. It is compared
  with the board that the timeout callback sets.
\<close>

definition spec_removeRows :: "board \<Rightarrow> board" where
  "spec_removeRows b =
     replicate (length (filter rowFull b)) emptyRow @ filter (\<lambda>row. \<not> rowFull row) b"

text \<open>
  From \<open>state_gap\<close>: the O piece locks (a clear of rows 18 and 19 is scheduled); the next
  O piece steps down 16 rows and locks on it, while the first clear is still pending.
\<close>

definition two_locks_events :: "event list" where
  "two_locks_events = ArrowDown Key_O # replicate 16 (ArrowDown Key_O) @ [ArrowDown Key_L]"

text \<open>The run returns a state, and the state satisfies \<open>P\<close>.\<close>

definition returns :: "(error + state) option \<Rightarrow> (state \<Rightarrow> bool) \<Rightarrow> bool" where
  "returns r P = (case r of Some (Inr s) \<Rightarrow> P s | _ \<Rightarrow> False)"

text \<open>The column at which \<open>spawnNewPiece\<close> puts a piece.\<close>

definition spawnX :: "key \<Rightarrow> int" where
  "spawnX k = BOARD_WIDTH div 2 - int (length (hd (shape (TETROMINOS k)))) div 2"

section \<open>Properties of the collision test\<close>

lemma ex_index_Cons:
  "(\<exists>i < Suc n. P i) \<longleftrightarrow> P 0 \<or> (\<exists>i < n. P (Suc i))"
  by (auto simp: less_Suc_eq_0_disj)

lemma colLoop_iff:
  "colLoop b x y row col vs \<longleftrightarrow>
     (\<exists>c < length vs. vs ! c \<noteq> Num 0 \<and> cellCollides b (x + (col + int c)) (y + row))"
proof (induction vs arbitrary: col)
  case Nil
  show ?case by simp
next
  case (Cons v vs)
  show ?case
    by (simp add: ex_index_Cons Cons.IH ac_simps)
qed

lemma rowLoop_iff:
  "rowLoop b x y row sh \<longleftrightarrow>
     (\<exists>r < length sh. \<exists>c < length (sh ! r). sh ! r ! c \<noteq> Num 0 \<and>
        cellCollides b (x + int c) (y + (row + int r)))"
proof (induction sh arbitrary: row)
  case Nil
  show ?case by simp
next
  case (Cons r0 rs)
  show ?case
    by (auto simp add: ex_index_Cons Cons.IH colLoop_iff ac_simps)
qed

lemma checkCollision_cells:
  "checkCollision b x y sh \<longleftrightarrow>
     (\<exists>r < length sh. \<exists>c < length (sh ! r). sh ! r ! c \<noteq> Num 0 \<and>
        cellCollides b (x + int c) (y + int r))"
  by (simp add: checkCollision_def rowLoop_iff)

lemma wf_board_row: "wf_board b \<Longrightarrow> i < length b \<Longrightarrow> length (b ! i) = 10"
  by (simp add: wf_board_def list_all_length BOARD_WIDTH_def)

lemma wf_board_length: "wf_board b \<Longrightarrow> length b = 20"
  by (simp add: wf_board_def BOARD_HEIGHT_def)

lemma wf_createEmptyBoard: "wf_board createEmptyBoard"
  by (simp add: wf_board_def createEmptyBoard_def BOARD_HEIGHT_def BOARD_WIDTH_def
      list_all_length)

lemma cellCollides_wf:
  assumes "wf_board b"
  shows "cellCollides b X Y \<longleftrightarrow>
     (X < 0 \<or> X \<ge> BOARD_WIDTH \<or> Y \<ge> BOARD_HEIGHT \<or> (Y \<ge> 0 \<and> b ! nat Y ! nat X \<noteq> Num 0))"
proof (cases "0 \<le> X \<and> X < BOARD_WIDTH \<and> 0 \<le> Y \<and> Y < BOARD_HEIGHT")
  case True
  then have Y: "nat Y < length b" "Y < int (length b)"
    using wf_board_length [OF assms] by (auto simp: BOARD_HEIGHT_def)
  then have "length (b ! nat Y) = 10" using wf_board_row [OF assms] by simp
  with True Y show ?thesis
    by (simp add: cellCollides_def arrayGet_def cellGet_def BOARD_WIDTH_def BOARD_HEIGHT_def)
next
  case False
  then show ?thesis by (auto simp: cellCollides_def)
qed

text \<open>
  Claim C1. On a board of 20 rows of 10 cells, \<open>checkCollision b x y sh\<close> is true exactly
  when some occupied cell \<open>(r, c)\<close> of the shape lands at \<open>(x + c, y + r)\<close> with
  \<open>x + c < 0\<close>, or \<open>x + c \<ge> 10\<close>, or \<open>y + r \<ge> 20\<close>, or \<open>y + r \<ge> 0\<close> and the board cell
  there occupied. A cell above the board (\<open>y + r < 0\<close>) in a column of the board meets
  none of the four conditions (the test \<open>cellCollides\<close> of a single cell is false there):
  a shape all of whose occupied cells are such cells does not collide.
\<close>

theorem checkCollision_iff:
  assumes "wf_board b"
  shows "(checkCollision b x y sh \<longleftrightarrow>
     (\<exists>r < length sh. \<exists>c < length (sh ! r). sh ! r ! c \<noteq> Num 0 \<and>
        (x + int c < 0 \<or> x + int c \<ge> BOARD_WIDTH \<or> y + int r \<ge> BOARD_HEIGHT \<or>
         (y + int r \<ge> 0 \<and> b ! nat (y + int r) ! nat (x + int c) \<noteq> Num 0))))
   \<and> (\<forall>X Y. Y < 0 \<and> 0 \<le> X \<and> X < BOARD_WIDTH \<longrightarrow> \<not> cellCollides b X Y)
   \<and> ((\<forall>r < length sh. \<forall>c < length (sh ! r). sh ! r ! c \<noteq> Num 0 \<longrightarrow>
         y + int r < 0 \<and> 0 \<le> x + int c \<and> x + int c < BOARD_WIDTH)
       \<longrightarrow> \<not> checkCollision b x y sh)"
  unfolding checkCollision_cells cellCollides_wf [OF assms]
  by (fastforce simp: BOARD_HEIGHT_def)

theorem checkCollision_iff_witness:
  "wf_board createEmptyBoard
   \<and> checkCollision createEmptyBoard 9 0 (shape (TETROMINOS Key_O))
   \<and> (\<exists>r < length (shape (TETROMINOS Key_O)). \<exists>c < length (shape (TETROMINOS Key_O) ! r).
        shape (TETROMINOS Key_O) ! r ! c \<noteq> Num 0 \<and>
        (9 + int c < 0 \<or> 9 + int c \<ge> BOARD_WIDTH \<or> 0 + int r \<ge> BOARD_HEIGHT \<or>
         (0 + int r \<ge> 0 \<and> createEmptyBoard ! nat (0 + int r) ! nat (9 + int c) \<noteq> Num 0)))"
proof -
  have h: "wf_board createEmptyBoard" by (rule wf_createEmptyBoard)
  have a: "checkCollision createEmptyBoard 9 0 (shape (TETROMINOS Key_O))" by code_simp
  from checkCollision_iff [OF h, of 9 0 "shape (TETROMINOS Key_O)"] a h
  show ?thesis by blast
qed

section \<open>Properties of the rotation\<close>

lemma rotated_clockwise:
  assumes "wf_shape sh"
  shows "rotated sh = Inr (clockwise sh)"
proof -
  from assms obtain r0 rs where sh: "sh = r0 # rs" by (cases sh) (auto simp: wf_shape_def)
  let ?n = "length r0"
  have rect: "\<And>i. i < length sh \<Longrightarrow> length (sh ! i) = ?n"
    using assms by (simp add: wf_shape_def sh list_all_length)
  have "transpose sh = map (\<lambda>i. map (\<lambda>j. sh ! j ! i) [0..<length sh]) [0..<?n]"
    by (rule transpose_rectangle) (use sh rect in auto)
  moreover have "map (\<lambda>row. cellGet row (int i)) sh = map (\<lambda>j. sh ! j ! i) [0..<length sh]"
    if "i < ?n" for i
  proof (rule nth_equalityI)
    show "length (map (\<lambda>row. cellGet row (int i)) sh) = length (map (\<lambda>j. sh ! j ! i) [0..<length sh])"
      by simp
  next
    fix j assume "j < length (map (\<lambda>row. cellGet row (int i)) sh)"
    then have j: "j < length sh" by simp
    with rect that have "i < length (sh ! j)" by simp
    then show "map (\<lambda>row. cellGet row (int i)) sh ! j = map (\<lambda>j. sh ! j ! i) [0..<length sh] ! j"
      using j by (simp add: cellGet_def arrayGet_def)
  qed
  ultimately have "clockwise sh = map (\<lambda>i. rev (map (\<lambda>row. cellGet row (int i)) sh)) [0..<?n]"
    by (simp add: clockwise_def)
  then show ?thesis by (simp add: rotated_def sh)
qed

lemma clockwise_nth:
  assumes "wf_shape sh" "i < length (hd sh)" "j < length sh"
  shows "length (clockwise sh) = length (hd sh)" 
    and "length (clockwise sh ! i) = length sh"
    and "clockwise sh ! i ! j = sh ! (length sh - 1 - j) ! i"
proof -
  from assms obtain r0 rs where sh: "sh = r0 # rs" by (cases sh) (auto simp: wf_shape_def)
  have rect: "\<And>i. i < length sh \<Longrightarrow> length (sh ! i) = length r0"
    using assms by (simp add: wf_shape_def sh list_all_length)
  have t: "transpose sh = map (\<lambda>i. map (\<lambda>j. sh ! j ! i) [0..<length sh]) [0..<length r0]"
    by (rule transpose_rectangle) (use sh rect in auto)
  have hd: "length (hd sh) = length r0" by (simp add: sh)
  show "length (clockwise sh) = length (hd sh)" by (simp add: clockwise_def t hd)
  show "length (clockwise sh ! i) = length sh" using assms(2) by (simp add: clockwise_def t hd)
  have "length sh - Suc j < length sh" using assms(3) by simp
  then show "clockwise sh ! i ! j = sh ! (length sh - 1 - j) ! i"
    using assms(2,3) by (simp add: clockwise_def t hd rev_nth)
qed

text \<open>
  Claim C2. For an active piece whose shape is a rectangle, \<open>rotatePiece\<close> replaces the
  shape by its clockwise rotation (transpose, then each row reversed: cell \<open>(i, j)\<close> of the
  result is cell \<open>(n - 1 - j, i)\<close> of a shape of \<open>n\<close> rows) and the origin by the first of
  \<open>(x, y)\<close>, \<open>(x - 1, y)\<close>, \<open>(x + 1, y)\<close>, \<open>(x, y - 1)\<close> at which the rotated shape does
  not collide; when it collides at all four the state is returned as it was, and in no
  case is an error raised.
\<close>

theorem rotatePiece_spec:
  assumes "currentPiece s = Some cp" and "wf_shape (shape (tetromino cp))"
  shows "rotatePiece s =
     Inr (case find (\<lambda>(cx, cy). \<not> checkCollision (board s) cx cy (clockwise (shape (tetromino cp))))
                 (candidates (piece_x cp) (piece_y cp)) of
            None \<Rightarrow> s
          | Some (cx, cy) \<Rightarrow>
              s\<lparr>currentPiece := Some (cp\<lparr>piece_x := cx, piece_y := cy,
                   tetromino := (tetromino cp)\<lparr>shape := clockwise (shape (tetromino cp))\<rparr>\<rparr>)\<rparr>)
   \<and> ((\<forall>p \<in> set (candidates (piece_x cp) (piece_y cp)).
          checkCollision (board s) (fst p) (snd p) (clockwise (shape (tetromino cp))))
        \<longrightarrow> rotatePiece s = Inr s)
   \<and> (\<forall>i < length (hd (shape (tetromino cp))). \<forall>j < length (shape (tetromino cp)).
          clockwise (shape (tetromino cp)) ! i ! j
            = shape (tetromino cp) ! (length (shape (tetromino cp)) - 1 - j) ! i)"
  using assms(1) clockwise_nth(3) [OF assms(2)]
  by (simp add: rotatePiece_def rotated_clockwise [OF assms(2)] Let_def isValidMove_def
      setCurrentPiece_def candidates_def)

theorem rotatePiece_spec_witness:
  "currentPiece state_T_at_wall
     = Some \<lparr>piece_x = 8, piece_y = 5,
             tetromino = (TETROMINOS Key_T)\<lparr>shape := [[Num 1, Num 0], [Num 1, Num 1], [Num 1, Num 0]]\<rparr>\<rparr>
   \<and> wf_shape [[Num 1, Num 0], [Num 1, Num 1], [Num 1, Num 0]]
   \<and> rotatePiece state_T_at_wall
     = Inr (state_T_at_wall\<lparr>currentPiece :=
         Some \<lparr>piece_x = 7, piece_y = 5,
               tetromino = (TETROMINOS Key_T)\<lparr>shape := [[Num 1, Num 1, Num 1], [Num 0, Num 1, Num 0]]\<rparr>\<rparr>\<rparr>)"
proof -
  let ?cp = "\<lparr>piece_x = 8, piece_y = 5,
             tetromino = (TETROMINOS Key_T)\<lparr>shape := [[Num 1, Num 0], [Num 1, Num 1], [Num 1, Num 0]]\<rparr>\<rparr>"
  have h1: "currentPiece state_T_at_wall = Some ?cp" by code_simp
  have h2: "wf_shape (shape (tetromino ?cp))" by code_simp
  have e: "(case find (\<lambda>(cx, cy). \<not> checkCollision (board state_T_at_wall) cx cy
                 (clockwise (shape (tetromino ?cp)))) (candidates (piece_x ?cp) (piece_y ?cp)) of
            None \<Rightarrow> state_T_at_wall
          | Some (cx, cy) \<Rightarrow>
              state_T_at_wall\<lparr>currentPiece := Some (?cp\<lparr>piece_x := cx, piece_y := cy,
                   tetromino := (tetromino ?cp)\<lparr>shape := clockwise (shape (tetromino ?cp))\<rparr>\<rparr>)\<rparr>)
      = state_T_at_wall\<lparr>currentPiece :=
         Some \<lparr>piece_x = 7, piece_y = 5,
               tetromino = (TETROMINOS Key_T)\<lparr>shape := [[Num 1, Num 1, Num 1], [Num 0, Num 1, Num 0]]\<rparr>\<rparr>\<rparr>"
    by code_simp
  from rotatePiece_spec [OF h1 h2] have
    "rotatePiece state_T_at_wall = Inr (case find (\<lambda>(cx, cy). \<not> checkCollision (board state_T_at_wall) cx cy
                 (clockwise (shape (tetromino ?cp)))) (candidates (piece_x ?cp) (piece_y ?cp)) of
            None \<Rightarrow> state_T_at_wall
          | Some (cx, cy) \<Rightarrow>
              state_T_at_wall\<lparr>currentPiece := Some (?cp\<lparr>piece_x := cx, piece_y := cy,
                   tetromino := (tetromino ?cp)\<lparr>shape := clockwise (shape (tetromino ?cp))\<rparr>\<rparr>)\<rparr>)"
    by (rule conjunct1)
  with e h1 h2 show ?thesis by simp
qed

lemma rotated_nonempty:
  assumes "sh \<noteq> []" "hd sh \<noteq> []"
  shows "\<exists>rot. rotated sh = Inr rot \<and> rot \<noteq> [] \<and> hd rot \<noteq> []"
proof -
  from assms obtain r0 rs where sh: "sh = r0 # rs" "r0 \<noteq> []" by (cases sh) auto
  then have "[0..<length r0] = 0 # [1..<length r0]" by (simp add: upt_conv_Cons)
  then show ?thesis by (simp add: rotated_def sh)
qed

lemma rotatePiece_step:
  assumes "currentPiece s = Some cp" "shape (tetromino cp) \<noteq> []" "hd (shape (tetromino cp)) \<noteq> []"
  shows "\<exists>s1. rotatePiece s = Inr s1 \<and> board s1 = board s \<and>
     (s1 = s \<or> \<not> pieceCollides s1) \<and>
     (\<exists>cp1. currentPiece s1 = Some cp1 \<and> shape (tetromino cp1) \<noteq> []
         \<and> hd (shape (tetromino cp1)) \<noteq> [])"
proof -
  from rotated_nonempty [OF assms(2,3)] obtain rot where
    rot: "rotated (shape (tetromino cp)) = Inr rot" "rot \<noteq> []" "hd rot \<noteq> []" by blast
  show ?thesis
    using assms rot
    by (auto simp: rotatePiece_def Let_def isValidMove_def setCurrentPiece_def pieceCollides_def)
qed

text \<open>
  Claim C9. From a state whose active piece (with a shape that has a first row with a
  cell) does not collide, two calls of \<open>rotatePiece\<close> both return, leave the board alone,
  and leave an active piece that is the one before or does not collide; so it does not
  collide in either case.
\<close>

theorem rotate_twice:
  assumes "currentPiece s = Some cp"
    and "shape (tetromino cp) \<noteq> []" and "hd (shape (tetromino cp)) \<noteq> []"
    and "\<not> pieceCollides s"
  shows "\<exists>s1 s2. rotatePiece s = Inr s1 \<and> rotatePiece s1 = Inr s2 \<and> board s2 = board s
     \<and> currentPiece s2 \<noteq> None
     \<and> (currentPiece s2 = currentPiece s \<or> \<not> pieceCollides s2)
     \<and> \<not> pieceCollides s2"
proof -
  from rotatePiece_step [OF assms(1,2,3)] obtain s1 cp1 where
    s1: "rotatePiece s = Inr s1" "board s1 = board s" "s1 = s \<or> \<not> pieceCollides s1"
      "currentPiece s1 = Some cp1" "shape (tetromino cp1) \<noteq> []" "hd (shape (tetromino cp1)) \<noteq> []"
    by blast
  from rotatePiece_step [OF s1(4,5,6)] obtain s2 cp2 where
    s2: "rotatePiece s1 = Inr s2" "board s2 = board s1" "s2 = s1 \<or> \<not> pieceCollides s2"
      "currentPiece s2 = Some cp2"
    by blast
  from s1(3) assms(4) have "\<not> pieceCollides s1" by auto
  with s2(3) have "\<not> pieceCollides s2" by auto
  with s1(1,2) s2(1,2,4) show ?thesis by auto
qed

theorem rotate_twice_witness:
  "currentPiece state_T_at_wall
     = Some \<lparr>piece_x = 8, piece_y = 5,
             tetromino = (TETROMINOS Key_T)\<lparr>shape := [[Num 1, Num 0], [Num 1, Num 1], [Num 1, Num 0]]\<rparr>\<rparr>
   \<and> [[Num 1, Num 0], [Num 1, Num 1], [Num 1, Num 0]] \<noteq> []
   \<and> hd [[Num 1, Num 0], [Num 1, Num 1], [Num 1, Num 0]] \<noteq> []
   \<and> \<not> pieceCollides state_T_at_wall
   \<and> (\<exists>s1 s2. rotatePiece state_T_at_wall = Inr s1 \<and> rotatePiece s1 = Inr s2
         \<and> board s2 = board state_T_at_wall \<and> \<not> pieceCollides s2)"
proof -
  let ?cp = "\<lparr>piece_x = 8, piece_y = 5,
             tetromino = (TETROMINOS Key_T)\<lparr>shape := [[Num 1, Num 0], [Num 1, Num 1], [Num 1, Num 0]]\<rparr>\<rparr>"
  have h1: "currentPiece state_T_at_wall = Some ?cp" by code_simp
  have h2: "shape (tetromino ?cp) \<noteq> []" by simp
  have h3: "hd (shape (tetromino ?cp)) \<noteq> []" by simp
  have h4: "\<not> pieceCollides state_T_at_wall" by code_simp
  from rotate_twice [OF h1 h2 h3 h4] h1 h4 show ?thesis by auto
qed

section \<open>Properties of locking\<close>

lemma covers_iff:
  "covers cp X Y \<longleftrightarrow>
     (\<exists>r < length (shape (tetromino cp)). \<exists>c < length (shape (tetromino cp) ! r).
        shape (tetromino cp) ! r ! c \<noteq> Num 0 \<and> X = piece_x cp + int c \<and> Y = piece_y cp + int r)"
  by (auto simp: covers_def)

lemma write_in_range:
  assumes "wf_board nb" "0 \<le> Y0" "Y0 < BOARD_HEIGHT" "0 \<le> X0" "X0 < BOARD_WIDTH"
  shows "arrayGet nb Y0 = Some (nb ! nat Y0)"
    and "arraySet (nb ! nat Y0) X0 v = (nb ! nat Y0)[nat X0 := v]"
    and "wf_board (nb[nat Y0 := (nb ! nat Y0)[nat X0 := v]])"
    and "Y < 20 \<Longrightarrow> X < 10 \<Longrightarrow> nb[nat Y0 := (nb ! nat Y0)[nat X0 := v]] ! Y ! X =
           (if int Y = Y0 \<and> int X = X0 then v else nb ! Y ! X)"
proof -
  have Y: "nat Y0 < length nb" "Y0 < int (length nb)"
    using assms wf_board_length [OF assms(1)] by (auto simp: BOARD_HEIGHT_def)
  have X: "nat X0 < length (nb ! nat Y0)" "X0 < int (length (nb ! nat Y0))"
    using assms wf_board_row [OF assms(1) Y(1)] by (auto simp: BOARD_WIDTH_def)
  show "arrayGet nb Y0 = Some (nb ! nat Y0)"
    using Y assms(2) by (simp add: arrayGet_def)
  show "arraySet (nb ! nat Y0) X0 v = (nb ! nat Y0)[nat X0 := v]"
    using X assms(4) by (simp add: arraySet_def)
  show "wf_board (nb[nat Y0 := (nb ! nat Y0)[nat X0 := v]])"
    using assms(1) Y by (auto simp: wf_board_def list_all_length nth_list_update)
  show "nb[nat Y0 := (nb ! nat Y0)[nat X0 := v]] ! Y ! X =
           (if int Y = Y0 \<and> int X = X0 then v else nb ! Y ! X)" if "Y < 20" "X < 10"
    using that Y X assms(2,4) wf_board_length [OF assms(1)] wf_board_row [OF assms(1), of Y]
    by (auto simp: nth_list_update)
qed

lemma placeCols_ok:
  assumes "wf_board nb"
  shows "\<exists>nb'. placeCols cp y x vs nb = Inr nb' \<and> wf_board nb' \<and>
     (\<forall>Y < 20. \<forall>X < 10. nb' ! Y ! X =
        (if (\<exists>c < length vs. vs ! c \<noteq> Num 0 \<and> int X = x + int c + piece_x cp
               \<and> int Y = y + piece_y cp)
         then Str (color (tetromino cp)) else nb ! Y ! X))"
  using assms
proof (induction vs arbitrary: x nb)
  case Nil
  then show ?case by simp
next
  case (Cons v vs)
  let ?Y0 = "y + piece_y cp" and ?X0 = "x + piece_x cp"
  show ?case
  proof (cases "v \<noteq> Num 0 \<and> ?Y0 \<ge> 0 \<and> ?Y0 < BOARD_HEIGHT \<and> ?X0 \<ge> 0 \<and> ?X0 < BOARD_WIDTH")
    case True
    let ?nb1 = "nb[nat ?Y0 := (nb ! nat ?Y0)[nat ?X0 := Str (color (tetromino cp))]]"
    from True have r: "0 \<le> ?Y0" "?Y0 < BOARD_HEIGHT" "0 \<le> ?X0" "?X0 < BOARD_WIDTH" by auto
    note w = write_in_range [OF Cons.prems r]
    from Cons.IH [OF w(3), of "x + 1"] obtain nb' where
      nb': "placeCols cp y (x + 1) vs ?nb1 = Inr nb'" "wf_board nb'"
        "\<forall>Y < 20. \<forall>X < 10. nb' ! Y ! X =
          (if (\<exists>c < length vs. vs ! c \<noteq> Num 0 \<and> int X = x + 1 + int c + piece_x cp
               \<and> int Y = y + piece_y cp)
           then Str (color (tetromino cp)) else ?nb1 ! Y ! X)"
      by blast
    have "placeCols cp y x (v # vs) nb = Inr nb'"
      using True nb'(1) by (simp add: w(1) w(2))
    moreover have "\<forall>Y < 20. \<forall>X < 10. nb' ! Y ! X =
        (if (\<exists>c < length (v # vs). (v # vs) ! c \<noteq> Num 0 \<and> int X = x + int c + piece_x cp
               \<and> int Y = y + piece_y cp)
         then Str (color (tetromino cp)) else nb ! Y ! X)"
      using nb'(3) True by (auto simp: w(4) ex_index_Cons ac_simps)
    ultimately show ?thesis using nb'(2) by blast
  next
    case False
    from Cons.IH [OF Cons.prems, of "x + 1"] obtain nb' where
      nb': "placeCols cp y (x + 1) vs nb = Inr nb'" "wf_board nb'"
        "\<forall>Y < 20. \<forall>X < 10. nb' ! Y ! X =
          (if (\<exists>c < length vs. vs ! c \<noteq> Num 0 \<and> int X = x + 1 + int c + piece_x cp
               \<and> int Y = y + piece_y cp)
           then Str (color (tetromino cp)) else nb ! Y ! X)"
      by blast
    have "placeCols cp y x (v # vs) nb = Inr nb'"
      using False nb'(1) by auto
    moreover have "\<forall>Y < 20. \<forall>X < 10. nb' ! Y ! X =
        (if (\<exists>c < length (v # vs). (v # vs) ! c \<noteq> Num 0 \<and> int X = x + int c + piece_x cp
               \<and> int Y = y + piece_y cp)
         then Str (color (tetromino cp)) else nb ! Y ! X)"
      using nb'(3) False by (auto simp: ex_index_Cons ac_simps BOARD_HEIGHT_def BOARD_WIDTH_def)
    ultimately show ?thesis using nb'(2) by blast
  qed
qed

lemma placeRows_ok:
  assumes "wf_board nb"
  shows "\<exists>nb'. placeRows cp y rows nb = Inr nb' \<and> wf_board nb' \<and>
     (\<forall>Y < 20. \<forall>X < 10. nb' ! Y ! X =
        (if (\<exists>r < length rows. \<exists>c < length (rows ! r). rows ! r ! c \<noteq> Num 0
               \<and> int X = int c + piece_x cp \<and> int Y = y + int r + piece_y cp)
         then Str (color (tetromino cp)) else nb ! Y ! X))"
  using assms
proof (induction rows arbitrary: y nb)
  case Nil
  then show ?case by simp
next
  case (Cons row rows)
  from placeCols_ok [OF Cons.prems, of cp y 0 row] obtain nb1 where
    nb1: "placeCols cp y 0 row nb = Inr nb1" "wf_board nb1"
      "\<forall>Y < 20. \<forall>X < 10. nb1 ! Y ! X =
        (if (\<exists>c < length row. row ! c \<noteq> Num 0 \<and> int X = 0 + int c + piece_x cp
               \<and> int Y = y + piece_y cp)
         then Str (color (tetromino cp)) else nb ! Y ! X)"
    by blast
  from Cons.IH [OF nb1(2), of "y + 1"] obtain nb' where
    nb': "placeRows cp (y + 1) rows nb1 = Inr nb'" "wf_board nb'"
      "\<forall>Y < 20. \<forall>X < 10. nb' ! Y ! X =
        (if (\<exists>r < length rows. \<exists>c < length (rows ! r). rows ! r ! c \<noteq> Num 0
               \<and> int X = int c + piece_x cp \<and> int Y = y + 1 + int r + piece_y cp)
         then Str (color (tetromino cp)) else nb1 ! Y ! X)"
    by blast
  have "placeRows cp y (row # rows) nb = Inr nb'"
    using nb1(1) nb'(1) by simp
  moreover have "\<forall>Y < 20. \<forall>X < 10. nb' ! Y ! X =
        (if (\<exists>r < length (row # rows). \<exists>c < length ((row # rows) ! r).
               (row # rows) ! r ! c \<noteq> Num 0
               \<and> int X = int c + piece_x cp \<and> int Y = y + int r + piece_y cp)
         then Str (color (tetromino cp)) else nb ! Y ! X)"
    using nb'(3) nb1(3) by (auto simp: ex_index_Cons ac_simps)
  ultimately show ?case using nb'(2) by blast
qed

lemma lockedBoard_ok:
  assumes "wf_board b"
  shows "\<exists>newBoard. lockedBoard b cp = Inr newBoard \<and> wf_board newBoard \<and>
     (\<forall>Y < 20. \<forall>X < 10. newBoard ! Y ! X =
        (if covers cp (int X) (int Y) then Str (color (tetromino cp)) else b ! Y ! X))"
  using placeRows_ok [OF assms, of cp 0 "shape (tetromino cp)"]
  by (simp add: lockedBoard_def covers_iff ac_simps)

lemma no_collision_covers_empty:
  assumes "wf_board b" "\<not> checkCollision b (piece_x cp) (piece_y cp) (shape (tetromino cp))"
    "covers cp (int X) (int Y)"
  shows "b ! Y ! X = Num 0"
proof -
  from assms(3) obtain r c where rc: "r < length (shape (tetromino cp))"
    "c < length (shape (tetromino cp) ! r)" "shape (tetromino cp) ! r ! c \<noteq> Num 0"
    "int X = piece_x cp + int c" "int Y = piece_y cp + int r"
    by (auto simp: covers_iff)
  with assms(2) have "\<not> cellCollides b (int X) (int Y)"
    by (auto simp: checkCollision_cells)
  then show ?thesis by (simp add: cellCollides_wf [OF assms(1)])
qed

lemma board_spawnNewPiece: "board (spawnNewPiece snap k q) = board q"
  by (simp add: spawnNewPiece_def Let_def setCurrentPiece_def)

lemma board_checkCompletedRows: "board (checkCompletedRows snap b q) = board q"
  by (simp add: checkCompletedRows_def Let_def)

text \<open>
  Claim C10. On a board of 20 rows of 10 cells, \<open>placePiece\<close> queues a board that holds the
  piece's colour at every position of the board covered by an occupied cell of the
  piece's shape and the old value of the render's board everywhere else; and when the
  piece does not collide at its position, every covered position of the board was empty
  before, so no occupied cell is overwritten.
\<close>

theorem placePiece_frame:
  assumes "wf_board (board snap)" and "currentPiece snap = Some cp"
  shows "\<exists>s'. placePiece snap randKey q = Inr s' \<and> wf_board (board s') \<and>
     (\<forall>Y < 20. \<forall>X < 10. board s' ! Y ! X =
        (if covers cp (int X) (int Y) then Str (color (tetromino cp)) else board snap ! Y ! X)) \<and>
     (\<not> checkCollision (board snap) (piece_x cp) (piece_y cp) (shape (tetromino cp)) \<longrightarrow>
        (\<forall>Y < 20. \<forall>X < 10. covers cp (int X) (int Y) \<longrightarrow> board snap ! Y ! X = Num 0))"
proof -
  from lockedBoard_ok [OF assms(1), of cp] obtain newBoard where
    nb: "lockedBoard (board snap) cp = Inr newBoard" "wf_board newBoard"
      "\<forall>Y < 20. \<forall>X < 10. newBoard ! Y ! X =
        (if covers cp (int X) (int Y) then Str (color (tetromino cp)) else board snap ! Y ! X)"
    by blast
  let ?s' = "spawnNewPiece snap randKey
               (checkCompletedRows snap newBoard (q\<lparr>board := newBoard\<rparr>))"
  have "placePiece snap randKey q = Inr ?s'"
    using assms(2) nb(1) by (simp add: placePiece_def)
  moreover have "board ?s' = newBoard"
    by (simp add: board_spawnNewPiece board_checkCompletedRows)
  ultimately show ?thesis
    using nb(2,3) no_collision_covers_empty [OF assms(1)] by auto
qed

theorem placePiece_frame_witness:
  "wf_board (board state_O_on_floor)
   \<and> currentPiece state_O_on_floor = Some \<lparr>piece_x = 4, piece_y = 18, tetromino = TETROMINOS Key_O\<rparr>
   \<and> \<not> checkCollision (board state_O_on_floor) 4 18 (shape (TETROMINOS Key_O))
   \<and> (\<exists>s'. placePiece state_O_on_floor Key_T state_O_on_floor = Inr s'
         \<and> board s' ! 19 ! 5 = Str ''bg-yellow-500'' \<and> board s' ! 19 ! 6 = Num 0
         \<and> board state_O_on_floor ! 19 ! 5 = Num 0)"
proof -
  let ?cp = "\<lparr>piece_x = 4, piece_y = 18, tetromino = TETROMINOS Key_O\<rparr>"
  have h1: "wf_board (board state_O_on_floor)" by code_simp
  have h2: "currentPiece state_O_on_floor = Some ?cp" by code_simp
  have h3: "\<not> checkCollision (board state_O_on_floor) 4 18 (shape (TETROMINOS Key_O))"
    by code_simp
  have c1: "covers ?cp (int 5) (int 19)" by code_simp
  have c2: "\<not> covers ?cp (int 6) (int 19)" by code_simp
  have e: "board state_O_on_floor ! 19 ! 6 = Num 0" by code_simp
  from placePiece_frame [OF h1 h2, of Key_T state_O_on_floor] obtain s' where
    s': "placePiece state_O_on_floor Key_T state_O_on_floor = Inr s'"
      "\<forall>Y < 20. \<forall>X < 10. board s' ! Y ! X =
        (if covers ?cp (int X) (int Y) then Str (color (tetromino ?cp))
         else board state_O_on_floor ! Y ! X)"
      "\<not> checkCollision (board state_O_on_floor) (piece_x ?cp) (piece_y ?cp) (shape (tetromino ?cp)) \<longrightarrow>
        (\<forall>Y < 20. \<forall>X < 10. covers ?cp (int X) (int Y) \<longrightarrow> board state_O_on_floor ! Y ! X = Num 0)"
    by blast
  from s'(2) c1 have a: "board s' ! 19 ! 5 = Str ''bg-yellow-500''" by simp
  from s'(2) c2 e have b: "board s' ! 19 ! 6 = Num 0" by simp
  from s'(3) h3 c1 have c: "board state_O_on_floor ! 19 ! 5 = Num 0" by simp
  from h1 h2 h3 s'(1) a b c show ?thesis by blast
qed

section \<open>Properties of the deferred clear\<close>

lemma set_completedRowIndicesOf:
  "set (completedRowIndicesOf b) = {i. i < length b \<and> rowFull (b ! i)}"
  by (auto simp: completedRowIndicesOf_def rowFull_def)

lemma length_completedRowIndicesOf:
  "length (completedRowIndicesOf b) = length (filter rowFull b)"
proof -
  have "filter rowFull (map ((!) b) [0..<length b])
      = map ((!) b) (filter (rowFull \<circ> (!) b) [0..<length b])"
    by (rule filter_map)
  then have "length (filter rowFull b) = length (filter (rowFull \<circ> (!) b) [0..<length b])"
    by (simp add: map_nth)
  then show ?thesis by (simp add: completedRowIndicesOf_def rowFull_def comp_def)
qed

lemma filterRows_completed:
  "filterRows b (completedRowIndicesOf b) = filter (\<lambda>row. \<not> rowFull row) b"
proof -
  have "filter (\<lambda>(index, _). index \<notin> set (completedRowIndicesOf b)) (zip [0..<length b] b)
      = filter (\<lambda>p. \<not> rowFull (snd p)) (zip [0..<length b] b)"
    by (rule filter_cong) (auto simp: set_completedRowIndicesOf set_zip)
  then have "filterRows b (completedRowIndicesOf b)
      = map snd (filter ((\<lambda>row. \<not> rowFull row) \<circ> snd) (zip [0..<length b] b))"
    by (simp add: filterRows_def enumerate_eq_zip comp_def)
  also have "\<dots> = filter (\<lambda>row. \<not> rowFull row) (map snd (zip [0..<length b] b))"
    by (simp only: filter_map)
  finally show ?thesis by simp
qed

lemma unshiftLoop_eq:
  "unshiftLoop xs = replicate (nat BOARD_HEIGHT - length xs) emptyRow @ xs"
proof (induction xs rule: unshiftLoop.induct)
  case (1 newBoard)
  show ?case
  proof (cases "int (length newBoard) < BOARD_HEIGHT")
    case True
    then have "nat BOARD_HEIGHT - length newBoard = Suc (nat BOARD_HEIGHT - Suc (length newBoard))"
      by linarith
    with True "1.IH" show ?thesis
      by (subst unshiftLoop.simps) (simp add: emptyRow_def replicate_app_Cons_same)
  next
    case False
    then show ?thesis by (subst unshiftLoop.simps) simp
  qed
qed

text \<open>
  The board that a callback sets is computed from the board it captured and from nothing
  else. For a captured board of 20 rows, with the indices that \<open>checkCompletedRows\<close>
  computed for it, it is that board's rows that are not full, in their order, under as
  many empty rows as it had full rows (\<open>spec_removeRows\<close> of the captured board): 20
  rows again. The board that the game has when the callback runs plays no part.
\<close>

lemma clearCallback_board:
  assumes "int (length (cl_boardToCheck c)) = BOARD_HEIGHT"
    and "cl_completedRowIndices c = completedRowIndicesOf (cl_boardToCheck c)"
  shows "board (clearCallback c q) = spec_removeRows (cl_boardToCheck c)"
    and "int (length (board (clearCallback c q))) = BOARD_HEIGHT"
proof -
  let ?b = "cl_boardToCheck c"
  have len: "length (filter (\<lambda>row. \<not> rowFull row) ?b) + length (filter rowFull ?b) = length ?b"
    using sum_length_filter_compl [of rowFull ?b] by simp
  have b: "board (clearCallback c q) = unshiftLoop (filter (\<lambda>row. \<not> rowFull row) ?b)"
    using assms(2) by (simp add: clearCallback_def Let_def filterRows_completed)
  have "nat BOARD_HEIGHT - length (filter (\<lambda>row. \<not> rowFull row) ?b) = length (filter rowFull ?b)"
    using len assms(1) by linarith
  then show "board (clearCallback c q) = spec_removeRows (cl_boardToCheck c)"
    and "int (length (board (clearCallback c q))) = BOARD_HEIGHT"
    using b len assms(1) by (simp_all add: unshiftLoop_eq spec_removeRows_def)
qed

text \<open>
  The score that a callback sets is computed from the score and the level it captured,
  and so is its test for the next level; the level and the drop time themselves are
  updated from their pending values.
\<close>

lemma clearCallback_score_level:
  "score (clearCallback c q)
     = cl_score c + int (length (cl_completedRowIndices c)) * 100 * cl_level c"
  "level (clearCallback c q)
     = (if score (clearCallback c q) div 500 > cl_level c - 1 then level q + 1 else level q)"
  "dropTime (clearCallback c q)
     = (if score (clearCallback c q) div 500 > cl_level c - 1
        then dropTime q * SPEED_INCREASE_FACTOR else dropTime q)"
  by (simp_all add: clearCallback_def Let_def)

section \<open>Properties of the hard drop\<close>

text \<open>
  The loop of the hard drop returns for every shape that has an occupied cell: the row
  it returns is the lowest that the piece can reach by single steps down.
\<close>

lemma dropLoop_returns:
  assumes "r < length sh" "c < length (sh ! r)" "sh ! r ! c \<noteq> Num 0"
  shows "\<exists>newY. dropLoop b x sh y = Some newY \<and> y \<le> newY
     \<and> \<not> isValidMove b x (newY + 1) sh
     \<and> (\<forall>y'. y < y' \<and> y' \<le> newY \<longrightarrow> isValidMove b x y' sh)"
proof -
  have coll: "\<not> isValidMove b x y' sh" if "y' + int r \<ge> 20" for y'
    using assms that
    by (auto simp: isValidMove_def checkCollision_cells cellCollides_def BOARD_HEIGHT_def)
  show ?thesis
  proof (induction "nat (20 - int r - y)" arbitrary: y rule: less_induct)
    case less
    show ?case
    proof (cases "isValidMove b x (y + 1) sh")
      case True
      then have "y + 1 + int r < 20" using coll [of "y + 1"] by force
      then have "nat (20 - int r - (y + 1)) < nat (20 - int r - y)" by simp
      from less [OF this] obtain newY where
        n: "dropLoop b x sh (y + 1) = Some newY" "y + 1 \<le> newY"
          "\<not> isValidMove b x (newY + 1) sh"
          "\<forall>y'. y + 1 < y' \<and> y' \<le> newY \<longrightarrow> isValidMove b x y' sh"
        by blast
      have "dropLoop b x sh y = Some newY"
        using True n(1) by (subst dropLoop.simps) simp
      moreover have "\<forall>y'. y < y' \<and> y' \<le> newY \<longrightarrow> isValidMove b x y' sh"
      proof (intro allI impI)
        fix y' assume "y < y' \<and> y' \<le> newY"
        then have "y' = y + 1 \<or> (y + 1 < y' \<and> y' \<le> newY)" by auto
        then show "isValidMove b x y' sh" using True n(4) by auto
      qed
      ultimately show ?thesis using n(2,3) by auto
    next
      case False
      then have "dropLoop b x sh y = Some y" by (subst dropLoop.simps) simp
      with False show ?thesis by auto
    qed
  qed
qed

lemma dropToBottom_noop:
  assumes "currentPiece snap = Some cp"
    and "\<not> isValidMove (board snap) (piece_x cp) (piece_y cp + 1) (shape (tetromino cp))"
  shows "dropToBottom snap k = Some (Inr snap)"
proof -
  have "dropLoop (board snap) (piece_x cp) (shape (tetromino cp)) (piece_y cp) = Some (piece_y cp)"
    using assms(2) by (subst dropLoop.simps) simp
  then show ?thesis using assms(1) by (simp add: dropToBottom_def)
qed

lemma dropToBottom_locks_in_place:
  assumes "currentPiece snap = Some cp"
    and "dropLoop (board snap) (piece_x cp) (shape (tetromino cp)) (piece_y cp) = Some newY"
    and "newY \<noteq> piece_y cp"
    and "dropToBottom snap k = Some (Inr s')"
  shows "lockedBoard (board snap) cp = Inr (board s')"
  using assms
  by (auto simp: dropToBottom_def placePiece_def board_spawnNewPiece board_checkCompletedRows
      split: sum.splits)

section \<open>Properties of spawning\<close>

lemma spawnNewPiece_eq:
  "spawnNewPiece snap k q =
     (if checkCollision (board snap) (spawnX k) 0 (shape (TETROMINOS k))
      then q\<lparr>gameOver := True\<rparr>
      else q\<lparr>currentPiece := Some \<lparr>piece_x = spawnX k, piece_y = 0, tetromino = TETROMINOS k\<rparr>\<rparr>)"
  by (simp add: spawnNewPiece_def Let_def randomTetromino_def setCurrentPiece_def spawnX_def)

lemma spawnEffect_spec:
  assumes "currentPiece s = None" and "\<not> gameOver s"
  shows "gameOver (spawnEffect s k) \<longleftrightarrow> checkCollision (board s) (spawnX k) 0 (shape (TETROMINOS k))"
    and "\<not> checkCollision (board s) (spawnX k) 0 (shape (TETROMINOS k)) \<Longrightarrow>
         currentPiece (spawnEffect s k)
           = Some \<lparr>piece_x = spawnX k, piece_y = 0, tetromino = TETROMINOS k\<rparr>"
    and "board (spawnEffect s k) = board s"
  using assms by (simp_all add: spawnEffect_def spawnNewPiece_eq)

section \<open>Every event returns\<close>

text \<open>
  From a well-formed state every event returns a well-formed state: no write misses the
  board, no rotation meets an empty shape, and the loop of the hard drop ends. The
  initial state is well-formed, so every state that a run of events reaches is.
\<close>

lemma wf_piece_occupied:
  assumes "wf_piece cp"
  obtains r c where "r < length (shape (tetromino cp))" "c < length (shape (tetromino cp) ! r)"
    "shape (tetromino cp) ! r ! c \<noteq> Num 0"
  using assms by (auto simp: wf_piece_def wf_piece_shape_def list_ex_length)

lemma wf_piece_catalogue: "wf_piece \<lparr>piece_x = px, piece_y = py, tetromino = TETROMINOS k\<rparr>"
  by (cases k) (simp_all add: wf_piece_def wf_piece_shape_def wf_shape_def)

lemma wf_piece_moved:
  "wf_piece (cp\<lparr>piece_x := px\<rparr>) = wf_piece cp" "wf_piece (cp\<lparr>piece_y := py\<rparr>) = wf_piece cp"
  by (simp_all add: wf_piece_def)

lemma wf_piece_rotated:
  assumes "wf_piece cp"
  shows "wf_piece_shape (clockwise (shape (tetromino cp)))"
proof -
  let ?sh = "shape (tetromino cp)"
  from assms have wf: "wf_shape ?sh" and hd: "hd ?sh \<noteq> []"
    by (auto simp: wf_piece_def wf_piece_shape_def)
  from wf have ne: "?sh \<noteq> []" by (simp add: wf_shape_def)
  from wf_piece_occupied [OF assms] obtain r c where
    rc: "r < length ?sh" "c < length (?sh ! r)" "?sh ! r ! c \<noteq> Num 0" by blast
  from wf rc(1) have "length (?sh ! r) = length (hd ?sh)"
    by (simp add: wf_shape_def list_all_length)
  with rc(2) have c: "c < length (hd ?sh)" by simp
  have len: "length (clockwise ?sh) = length (hd ?sh)"
    using clockwise_nth(1) [OF wf, of 0 0] hd ne by simp
  have rows: "length (clockwise ?sh ! i) = length ?sh" if "i < length (hd ?sh)" for i
    using clockwise_nth(2) [OF wf that, of 0] ne by simp
  have "clockwise ?sh \<noteq> []" using len hd by auto
  moreover have "hd (clockwise ?sh) \<noteq> []"
    using rows [of 0] hd ne len by (cases "clockwise ?sh") auto
  moreover have "list_all (\<lambda>row. length row = length (hd (clockwise ?sh))) (clockwise ?sh)"
  proof -
    have "length (hd (clockwise ?sh)) = length ?sh"
      using rows [of 0] hd len by (cases "clockwise ?sh") auto
    then show ?thesis using rows len by (simp add: list_all_length)
  qed
  moreover have "list_ex (list_ex (\<lambda>v. v \<noteq> Num 0)) (clockwise ?sh)"
  proof -
    let ?j = "length ?sh - 1 - r"
    have j: "?j < length ?sh" using rc(1) by simp
    have "clockwise ?sh ! c ! ?j = ?sh ! (length ?sh - 1 - ?j) ! c"
      by (rule clockwise_nth(3) [OF wf c j])
    also have "length ?sh - 1 - ?j = r" using rc(1) by simp
    finally have "clockwise ?sh ! c ! ?j \<noteq> Num 0" using rc(3) by simp
    moreover have "?j < length (clockwise ?sh ! c)" using j rows [OF c] by simp
    ultimately have "list_ex (\<lambda>v. v \<noteq> Num 0) (clockwise ?sh ! c)"
      unfolding list_ex_length by blast
    moreover have "c < length (clockwise ?sh)" using c len by simp
    ultimately show ?thesis unfolding list_ex_length by blast
  qed
  ultimately show ?thesis by (simp add: wf_piece_shape_def wf_shape_def)
qed

lemma wf_board_cleared:
  assumes "wf_closure c"
  shows "wf_board (unshiftLoop (filterRows (cl_boardToCheck c) (cl_completedRowIndices c)))"
proof -
  let ?b = "cl_boardToCheck c"
  from assms have wf: "wf_board ?b"
    and idx: "cl_completedRowIndices c = completedRowIndicesOf ?b"
    by (auto simp: wf_closure_def)
  have len: "length (filter (\<lambda>row. \<not> rowFull row) ?b) \<le> 20"
    using wf_board_length [OF wf] length_filter_le [of "\<lambda>row. \<not> rowFull row" ?b] by simp
  have rows: "list_all (\<lambda>r. int (length r) = BOARD_WIDTH) (filter (\<lambda>row. \<not> rowFull row) ?b)"
    using wf by (auto simp: wf_board_def list_all_iff)
  show ?thesis
    using len rows
    by (auto simp: idx filterRows_completed unshiftLoop_eq wf_board_def BOARD_HEIGHT_def
        BOARD_WIDTH_def emptyRow_def list_all_iff)
qed

lemma wf_state_placePiece:
  assumes "wf_state snap" "wf_state q" "board q = board snap" "timeouts q = timeouts snap"
    "currentPiece q \<noteq> None"
  shows "\<exists>s'. placePiece snap k q = Inr s' \<and> wf_state s'"
proof (cases "currentPiece snap")
  case None
  then show ?thesis using assms(2) by (simp add: placePiece_def)
next
  case (Some cp)
  from assms(1) have wfb: "wf_board (board snap)" by (simp add: wf_state_def)
  from lockedBoard_ok [OF wfb, of cp] obtain newBoard where
    nb: "lockedBoard (board snap) cp = Inr newBoard" "wf_board newBoard" by blast
  let ?q1 = "checkCompletedRows snap newBoard (q\<lparr>board := newBoard\<rparr>)"
  have q1: "wf_state ?q1"
    using assms(2) nb(2)
    by (auto simp: wf_state_def checkCompletedRows_def Let_def wf_closure_def)
  have "wf_state (spawnNewPiece snap k ?q1)"
    using q1 wf_piece_catalogue [of "spawnX k" 0 k]
    by (auto simp: spawnNewPiece_eq wf_state_def)
  then show ?thesis using Some nb(1) by (simp add: placePiece_def)
qed

lemma step_total:
  assumes "wf_state s"
  shows "\<exists>s'. step e s = Some (Inr s') \<and> wf_state s'"
proof (cases e)
  case ArrowLeft
  then show ?thesis using assms
    by (auto simp: step_def moveLeft_def setCurrentPiece_def wf_state_def wf_piece_moved
        split: option.splits)
next
  case ArrowRight
  then show ?thesis using assms
    by (auto simp: step_def moveRight_def setCurrentPiece_def wf_state_def wf_piece_moved
        split: option.splits)
next
  case (ArrowDown k)
  show ?thesis
  proof (cases "currentPiece s")
    case None
    then show ?thesis using assms ArrowDown by (simp add: step_def moveDown_def)
  next
    case (Some cp)
    from wf_state_placePiece [OF assms assms, of k] Some obtain s1 where
      "placePiece s k s = Inr s1" "wf_state s1" by auto
    then show ?thesis using assms ArrowDown Some
      by (auto simp: step_def moveDown_def setCurrentPiece_def wf_state_def wf_piece_moved)
  qed
next
  case ArrowUp
  show ?thesis
  proof (cases "currentPiece s")
    case None
    then show ?thesis using assms ArrowUp by (simp add: step_def rotatePiece_def)
  next
    case (Some cp)
    from assms Some have wfp: "wf_piece cp" by (simp add: wf_state_def)
    then have wfs: "wf_shape (shape (tetromino cp))"
      by (simp add: wf_piece_def wf_piece_shape_def)
    show ?thesis
      using assms ArrowUp Some wf_piece_rotated [OF wfp]
      by (auto simp: step_def rotatePiece_def rotated_clockwise [OF wfs] Let_def
          setCurrentPiece_def wf_state_def wf_piece_def)
  qed
next
  case (Space k)
  show ?thesis
  proof (cases "currentPiece s")
    case None
    then show ?thesis using assms Space by (simp add: step_def dropToBottom_def)
  next
    case (Some cp)
    from assms Some have wfp: "wf_piece cp" by (simp add: wf_state_def)
    from wf_piece_occupied [OF wfp] obtain r c where
      rc: "r < length (shape (tetromino cp))" "c < length (shape (tetromino cp) ! r)"
        "shape (tetromino cp) ! r ! c \<noteq> Num 0" by blast
    from dropLoop_returns [OF rc, of "board s" "piece_x cp" "piece_y cp"] obtain newY where
      newY: "dropLoop (board s) (piece_x cp) (shape (tetromino cp)) (piece_y cp) = Some newY"
      by blast
    let ?q = "setCurrentPiece (map_option (\<lambda>prev. prev\<lparr>piece_y := newY\<rparr>)) s"
    have "wf_state ?q" "board ?q = board s" "timeouts ?q = timeouts s" "currentPiece ?q \<noteq> None"
      using assms Some by (auto simp: setCurrentPiece_def wf_state_def wf_piece_moved)
    from wf_state_placePiece [OF assms this, of k] obtain s1 where
      "placePiece s k ?q = Inr s1" "wf_state s1" by auto
    then show ?thesis using assms Space Some newY
      by (auto simp: step_def dropToBottom_def)
  qed
next
  case Timeout
  show ?thesis
  proof (cases "timeouts s")
    case Nil
    then show ?thesis using assms Timeout by (simp add: step_def timeoutFires_def)
  next
    case (Cons c cs)
    with assms have c: "wf_closure c" and cs: "list_all wf_closure cs"
      by (auto simp: wf_state_def)
    show ?thesis
      using assms Timeout Cons cs wf_board_cleared [OF c]
      by (auto simp: step_def timeoutFires_def clearCallback_def Let_def wf_state_def)
  qed
next
  case ResetButton
  then show ?thesis using assms
    by (auto simp: step_def resetGame_def wf_state_def wf_createEmptyBoard)
next
  case (SpawnEffect k)
  then show ?thesis using assms wf_piece_catalogue [of "spawnX k" 0 k]
    by (auto simp: step_def spawnEffect_def spawnNewPiece_eq wf_state_def)
qed

lemma wf_initialState: "wf_state initialState"
  by (simp add: wf_state_def initialState_def wf_createEmptyBoard)

lemma run_total:
  assumes "wf_state s"
  shows "\<exists>s'. run es s = Some (Inr s') \<and> wf_state s'"
  using assms
proof (induction es arbitrary: s)
  case Nil
  then show ?case by simp
next
  case (Cons e es)
  from step_total [OF Cons.prems, of e] obtain s1 where
    s1: "step e s = Some (Inr s1)" "wf_state s1" by blast
  from Cons.IH [OF s1(2)] s1(1) show ?case by simp
qed

section \<open>Invariants of the session\<close>

text \<open>
  Every event other than the reset keeps the level from decreasing, the game-over flag
  from being cleared and a non-negative drop time from increasing; every event other than
  the reset and a timeout leaves the score as it is.
\<close>

lemma placePiece_fields:
  assumes "placePiece snap k q = Inr s'"
  shows "level s' = level q" "dropTime s' = dropTime q" "score s' = score q"
    "gameOver q \<Longrightarrow> gameOver s'"
  using assms
  by (auto simp: placePiece_def spawnNewPiece_def checkCompletedRows_def Let_def
      setCurrentPiece_def split: option.splits sum.splits if_splits)

lemma step_fields:
  assumes "step e s = Some (Inr s')" and "e \<noteq> ResetButton"
  shows "level s \<le> level s'"
    and "gameOver s \<Longrightarrow> gameOver s'"
    and "0 \<le> dropTime s \<Longrightarrow> 0 \<le> dropTime s' \<and> dropTime s' \<le> dropTime s"
    and "e \<noteq> Timeout \<Longrightarrow> score s' = score s"
proof -
  have *: "level s \<le> level s' \<and> (gameOver s \<longrightarrow> gameOver s')
      \<and> (0 \<le> dropTime s \<longrightarrow> 0 \<le> dropTime s' \<and> dropTime s' \<le> dropTime s)
      \<and> (e \<noteq> Timeout \<longrightarrow> score s' = score s)"
  proof (cases e)
    case ArrowLeft
    with assms show ?thesis
      by (auto simp: step_def moveLeft_def setCurrentPiece_def split: option.splits if_splits)
  next
    case ArrowRight
    with assms show ?thesis
      by (auto simp: step_def moveRight_def setCurrentPiece_def split: option.splits if_splits)
  next
    case (ArrowDown k)
    with assms show ?thesis
      by (auto simp: step_def moveDown_def setCurrentPiece_def placePiece_fields
          split: option.splits if_splits)
  next
    case ArrowUp
    with assms show ?thesis
      by (auto simp: step_def rotatePiece_def setCurrentPiece_def Let_def
          split: option.splits sum.splits if_splits)
  next
    case (Space k)
    with assms show ?thesis
      by (auto simp: step_def dropToBottom_def setCurrentPiece_def placePiece_fields
          split: option.splits if_splits)
  next
    case Timeout
    with assms show ?thesis
      by (auto simp: step_def timeoutFires_def clearCallback_def Let_def
          SPEED_INCREASE_FACTOR_def split: list.splits if_splits)
  next
    case ResetButton
    with assms show ?thesis by simp
  next
    case (SpawnEffect k)
    with assms show ?thesis
      by (auto simp: step_def spawnEffect_def spawnNewPiece_def setCurrentPiece_def Let_def
          split: if_splits)
  qed
  from * show "level s \<le> level s'" "gameOver s \<Longrightarrow> gameOver s'"
    "0 \<le> dropTime s \<Longrightarrow> 0 \<le> dropTime s' \<and> dropTime s' \<le> dropTime s"
    "e \<noteq> Timeout \<Longrightarrow> score s' = score s" by auto
qed

section \<open>States reached from the initial state\<close>

text \<open>The concrete states used below are reached from the initial state by the event
  lists given with them.\<close>

lemma state_O_spawned_reachable:
  "run [SpawnEffect Key_O] initialState = Some (Inr state_O_spawned)"
  by code_simp

lemma state_tower_reachable: "run tower_events initialState = Some (Inr state_tower)"
  by code_simp

lemma state_two_rows_reachable: "run two_rows_events initialState = Some (Inr state_two_rows)"
  by code_simp

lemma state_gap_reachable: "run gap_events initialState = Some (Inr state_gap)"
  by code_simp

lemma state_gap400_reachable:
  "run gap400_events initialState = Some (Inr (state_gap\<lparr>score := 400\<rparr>))"
  by code_simp

section \<open>Where the component departs from the specification\<close>

lemma returns_iff: "returns r P \<longleftrightarrow> (\<exists>s. r = Some (Inr s) \<and> P s)"
  by (auto simp: returns_def split: option.splits sum.splits)


text \<open>
  Claim C4, evaluated. In \<open>state_gap\<close> the O piece locks and completes rows 18 and 19;
  the next O piece locks on it while that clear is pending and completes rows 16 and 17.
  The board of the game now has four full rows under 16 empty ones, and removing its
  full rows would leave the empty board. The first timeout fires: its callback sets the
  board that it captured at the first lock, without that board's two full rows. Rows 18
  and 19 of the new board are rows with a gap in columns 4 and 5, which the board of the
  game did not hold: the second piece is erased, two rows rather than four have gone and
  no row of the new board is full.
\<close>

theorem clear_sets_captured_board:
  "\<exists>s2. run two_locks_events state_gap = Some (Inr s2)
      \<and> board s2 = replicate 16 emptyRow @ replicate 4 (yellowRow [0, 1, 2, 3, 4, 5, 6, 7, 8, 9])
      \<and> length (filter rowFull (board s2)) = 4
      \<and> spec_removeRows (board s2) = createEmptyBoard
      \<and> (\<exists>s3. step Timeout s2 = Some (Inr s3)
            \<and> board s3 = replicate 18 emptyRow @ replicate 2 (yellowRow [0, 1, 2, 3, 6, 7, 8, 9])
            \<and> board s3 \<noteq> spec_removeRows (board s2)
            \<and> yellowRow [0, 1, 2, 3, 6, 7, 8, 9] \<notin> set (board s2)
            \<and> length (filter rowFull (board s3)) = 0)"
  unfolding returns_iff [symmetric] by code_simp

text \<open>
  The same with a single key: after the first lock the next O piece is hard-dropped
  while the clear is pending (it locks where it spawned, in rows 0 and 1). When the
  timeout fires the piece is gone from the board, where removing the full rows of the
  game's board would have moved it down to rows 2 and 3.
\<close>

lemma clear_erases_hard_dropped_piece:
  "\<exists>s2. run [ArrowDown Key_O, Space Key_O] state_gap = Some (Inr s2)
      \<and> board s2 = replicate 2 (yellowRow [4, 5]) @ replicate 14 emptyRow
           @ replicate 2 (yellowRow [0, 1, 2, 3, 6, 7, 8, 9])
           @ replicate 2 (yellowRow [0, 1, 2, 3, 4, 5, 6, 7, 8, 9])
      \<and> spec_removeRows (board s2)
           = replicate 2 emptyRow @ replicate 2 (yellowRow [4, 5]) @ replicate 14 emptyRow
             @ replicate 2 (yellowRow [0, 1, 2, 3, 6, 7, 8, 9])
      \<and> (\<exists>s3. step Timeout s2 = Some (Inr s3)
            \<and> board s3 = replicate 18 emptyRow @ replicate 2 (yellowRow [0, 1, 2, 3, 6, 7, 8, 9])
            \<and> board s3 \<noteq> spec_removeRows (board s2))"
  unfolding returns_iff [symmetric] by code_simp

text \<open>
  Claim C5, evaluated. In \<open>state_gap\<close> at score 400 and level 1 the O piece locks and
  completes rows 18 and 19; the next O piece locks on it while that clear is pending and
  completes rows 16 and 17, with rows 18 and 19 still on the board: its callback holds
  four rows and, like the first, score 400 and level 1. The first clear sets the score to
  600, the level to 2 and the drop time to 760. When the second fires, the score becomes
  400 + 400 = 800: it grows by 200, which is neither 4 * 100 * 2 nor 4 * 100 * 1; and the
  level becomes 3 and the drop time 722, although 1 + 800 div 500 does not exceed the
  level 2.
\<close>

theorem clear_score_from_captured_score:
  "\<exists>s3. run two_clears_events (state_gap\<lparr>score := 400\<rparr>) = Some (Inr s3)
      \<and> map (\<lambda>c. length (cl_completedRowIndices c)) (timeouts s3) = [4]
      \<and> score s3 = 600 \<and> level s3 = 2 \<and> dropTime s3 = 760
      \<and> (\<exists>s4. step Timeout s3 = Some (Inr s4)
            \<and> score s4 = 800 \<and> level s4 = 3 \<and> dropTime s4 = 722
            \<and> dropTime s4 \<noteq> dropTime s3
            \<and> score s4 - score s3 \<noteq> 4 * 100 * level s3
            \<and> score s4 - score s3 \<noteq> 4 * 100 * 1
            \<and> 1 + score s4 div 500 \<le> level s3)"
  unfolding returns_iff [symmetric] by code_simp

text \<open>
  Claim C3, evaluated. The O piece spawned on the empty board is hard-dropped: the loop
  finds row 18, the lowest position, and \<open>placePiece\<close> is called; it reads the piece of
  its render, whose row is still 0, so the piece is locked into rows 0 and 1 and the
  bottom rows stay empty. The claim says that the piece locks at the position found.
\<close>

theorem hard_drop_locks_at_start:
  "dropLoop (board state_O_spawned) 4 (shape (TETROMINOS Key_O)) 0 = Some 18
   \<and> (\<exists>s'. dropToBottom state_O_spawned Key_T = Some (Inr s')
         \<and> Inr (board s') = lockedBoard createEmptyBoard (pieceO 4 0)
         \<and> Inr (board s') \<noteq> lockedBoard createEmptyBoard (pieceO 4 18)
         \<and> board s' ! 0 ! 4 = Str ''bg-yellow-500'' \<and> board s' ! 19 ! 4 = Num 0)"
  unfolding returns_iff [symmetric] by code_simp

text \<open>
  Claim C6, evaluated. On the tower that reaches row 2 the O piece at its spawn position
  cannot move down and is locked into rows 0 and 1. \<open>spawnNewPiece\<close> then tests the spawn
  position of the next O piece against the board of its render, which does not hold the
  piece just locked: the game-over flag is not set and the new piece becomes active,
  although the spawn position collides with the board that now exists.
\<close>

theorem spawn_after_lock_ignores_locked_piece:
  "\<exists>s'. step (ArrowDown Key_O) state_tower = Some (Inr s')
      \<and> gameOver s' = False
      \<and> currentPiece s' = Some (pieceO 4 0)
      \<and> board s' = replicate 20 (yellowRow [4, 5])
      \<and> checkCollision (board s') 4 0 (shape (TETROMINOS Key_O))"
  unfolding returns_iff [symmetric] by code_simp

text \<open>
  Claim C7, evaluated. In \<open>state_two_rows\<close> the O piece locks and completes the two bottom
  rows; the reset button is pressed while the clear is pending, and the spawn effect
  runs. The reset gives the empty board, score 0, level 1 and drop time 800, and leaves
  the timeout scheduled. When it fires, the board becomes the stale board without its two
  full rows (an O piece in the bottom rows), the score 600, the level 2 and the drop
  time 760.
\<close>

theorem reset_does_not_cancel_clear:
  "\<exists>s2. run [ArrowDown Key_T, ResetButton, SpawnEffect Key_O] state_two_rows = Some (Inr s2)
      \<and> board s2 = createEmptyBoard \<and> score s2 = 0 \<and> level s2 = 1 \<and> dropTime s2 = 800
      \<and> (\<exists>s3. step Timeout s2 = Some (Inr s3)
            \<and> board s3 = replicate 18 emptyRow @ [yellowRow [0, 1], yellowRow [0, 1]]
            \<and> board s3 \<noteq> createEmptyBoard
            \<and> score s3 = 600 \<and> level s3 = 2 \<and> dropTime s3 = 760)"
  unfolding returns_iff [symmetric] by code_simp

text \<open>
  Claim C8, evaluated. From \<open>state_gap\<close> (score 0, level 1) three clears overlap. The
  first, of rows 18 and 19, and the second, of rows 16 to 19, capture score 0. The first
  fires: score 200. The L piece then completes one row, and the third clear captures
  score 200. The second fires and sets the score to 0 + 400; the third fires and sets it
  to 200 + 100. On that timeout, which is no reset, the score decreases from 400 to 300.
\<close>

theorem score_decreases_on_stale_clear:
  "\<exists>s5. run three_clears_events state_gap = Some (Inr s5)
      \<and> score s5 = 400
      \<and> (\<exists>s6. step Timeout s5 = Some (Inr s6) \<and> score s6 = 300)"
  unfolding returns_iff [symmetric] by code_simp

end
